theory Spec2Isabelle
  imports Main
begin

section \<open>Data model of the interrupt protocol (types.ts and the useChat hook)\<close>

text \<open>
  The hook works on untyped JSON and tests JavaScript truthiness. The values it reads are
  modelled by their declared types: an identifier is \<open>string | undefined\<close>
  (\<open>interruptId?: string\<close>), the marker \<open>lastInterruptIdRef\<close> is
  \<open>string | null\<close>, both as \<open>string option\<close>. An opaque object (the
  state snapshot, the arguments of an action) is an association list.
\<close>

type_synonym snapshot = "(string \<times> string) list"

record action_request =
  ar_name :: "string option"
  ar_args :: snapshot

text \<open>The object the hook calls \<open>interruptValue\<close>: only \<open>action_requests\<close>
  and \<open>name\<close> are ever read from it.\<close>

record payload =
  action_requests :: "action_request list option"
  pname :: "string option"

text \<open>An interrupt as reported by either channel: \<open>id\<close>, \<open>value\<close>, and the
  fields of the object itself, which are read when \<open>value\<close> is missing
  (\<open>interrupt?.value || interrupt\<close>).\<close>

record interrupt =
  iid :: "string option"
  ivalue :: "payload option"
  iown :: payload

record InterruptState =
  runId :: string
  threadId :: string
  nodeName :: string
  pendingAction :: "payload option"
  state :: snapshot
  interruptId :: "string option"

datatype HITLDecision = approve | reject | edit

text \<open>One element of \<open>command.resume.decisions\<close>.\<close>

record decision_entry =
  d_type :: string
  edited_args :: "snapshot option"

text \<open>The mutable state of the hook: the React state \<open>interruptState\<close> and the two
  refs \<open>handledInterruptIdsRef\<close> and \<open>lastInterruptIdRef\<close>.\<close>

record hook =
  interruptState :: "InterruptState option"
  handledInterruptIds :: "string set"
  lastInterruptId :: "string option"

definition initial_hook :: hook where
  "initial_hook = \<lparr>interruptState = None, handledInterruptIds = {}, lastInterruptId = None\<rparr>"

text \<open>What the detector reads of the \<open>useStream\<close> object, and what
  \<open>client.threads.getState\<close> resolves to (or that it rejected).\<close>

record stream =
  s_interrupt :: "interrupt option"
  s_runId :: "string option"
  s_values :: "snapshot option"

record thread_state =
  ts_interrupts :: "interrupt list option"
  ts_tasks :: "interrupt list option list option"
  ts_values :: "snapshot option"

datatype query_outcome = Rejected | Resolved thread_state

section \<open>Effects\<close>

text \<open>
  Every statement of the hook that writes the state, and the call of
  \<open>stream.submit\<close>, is an effect; an operation is the list of its effects in program
  order, and \<open>exec\<close> runs them. \<open>SetInterruptState (Some r)\<close> is a publish event,
  \<open>SetInterruptState None\<close> a clear.
\<close>

datatype effect =
    LedgerAdd string
  | LedgerDelete string
  | LedgerClear
  | SetInterruptState "InterruptState option"
  | SetLastInterruptId "string option"
  | Submit "decision_entry list"

fun exec1 :: "hook \<Rightarrow> effect \<Rightarrow> hook" where
  "exec1 h (LedgerAdd i) = h\<lparr>handledInterruptIds := insert i (handledInterruptIds h)\<rparr>"
| "exec1 h (LedgerDelete i) = h\<lparr>handledInterruptIds := handledInterruptIds h - {i}\<rparr>"
| "exec1 h LedgerClear = h\<lparr>handledInterruptIds := {}\<rparr>"
| "exec1 h (SetInterruptState r) = h\<lparr>interruptState := r\<rparr>"
| "exec1 h (SetLastInterruptId m) = h\<lparr>lastInterruptId := m\<rparr>"
| "exec1 h (Submit ds) = h"

definition exec :: "effect list \<Rightarrow> hook \<Rightarrow> hook" where
  "exec es h = foldl exec1 h es"

fun is_submit :: "effect \<Rightarrow> bool" where
  "is_submit (Submit ds) = True"
| "is_submit e = False"

definition publishes :: "effect list \<Rightarrow> InterruptState list" where
  "publishes es = concat (map (\<lambda>e. case e of SetInterruptState (Some r) \<Rightarrow> [r] | _ \<Rightarrow> []) es)"

definition submitted :: "effect list \<Rightarrow> decision_entry list list" where
  "submitted es = concat (map (\<lambda>e. case e of Submit ds \<Rightarrow> [ds] | _ \<Rightarrow> []) es)"

text \<open>The effects that come before the first call of \<open>stream.submit\<close>.\<close>

definition before_submit :: "effect list \<Rightarrow> effect list" where
  "before_submit es = takeWhile (\<lambda>e. \<not> is_submit e) es"

section \<open>JavaScript truthiness on optional strings\<close>

definition truthy :: "string option \<Rightarrow> bool" where
  "truthy x = (case x of None \<Rightarrow> False | Some s \<Rightarrow> s \<noteq> [])"

text \<open>\<open>a || b\<close> and \<open>a || "literal"\<close>, and \<open>interruptId || null\<close>.\<close>

definition js_or :: "string option \<Rightarrow> string option \<Rightarrow> string option" where
  "js_or a b = (if truthy a then a else b)"

definition or_default :: "string option \<Rightarrow> string \<Rightarrow> string" where
  "or_default a d = (case a of None \<Rightarrow> d | Some s \<Rightarrow> if s = [] then d else s)"

definition or_null :: "string option \<Rightarrow> string option" where
  "or_null a = (if truthy a then a else None)"

text \<open>\<open>interruptId && handledInterruptIdsRef.current.has(interruptId)\<close>.\<close>

definition handled :: "string option \<Rightarrow> string set \<Rightarrow> bool" where
  "handled x S = (case x of None \<Rightarrow> False | Some i \<Rightarrow> i \<noteq> [] \<and> i \<in> S)"

text \<open>\<open>interruptId === lastInterruptIdRef.current\<close>: \<open>undefined\<close> is not
  strictly equal to \<open>null\<close>, nor to a string.\<close>

definition strict_eq :: "string option \<Rightarrow> string option \<Rightarrow> bool" where
  "strict_eq x m = (case x of None \<Rightarrow> False | Some i \<Rightarrow> m = Some i)"

section \<open>The detector: checkInterrupts\<close>

definition interruptValue :: "interrupt \<Rightarrow> payload" where
  "interruptValue intr = (case ivalue intr of Some v \<Rightarrow> v | None \<Rightarrow> iown intr)"

text \<open>\<open>interruptValue?.action_requests?.[0]?.name\<close>.\<close>

definition first_request_name :: "payload \<Rightarrow> string option" where
  "first_request_name v =
     (case action_requests v of
        None \<Rightarrow> None
      | Some [] \<Rightarrow> None
      | Some (a # rest) \<Rightarrow> ar_name a)"

definition nodeName_of :: "payload \<Rightarrow> string" where
  "nodeName_of v = or_default (js_or (first_request_name v) (pname v)) ''unknown''"

text \<open>The two guarded blocks that close a tick: the clear of lines 330-333, 375-378,
  406-409 and 413-416, and the publish of lines 347-357 and 393-403.\<close>

definition clear_if_marked :: "bool \<Rightarrow> hook \<Rightarrow> effect list" where
  "clear_if_marked cancelled h =
     (if \<not> cancelled \<and> lastInterruptId h \<noteq> None
      then [SetInterruptState None, SetLastInterruptId None] else [])"

definition publish :: "bool \<Rightarrow> string option \<Rightarrow> InterruptState \<Rightarrow> effect list" where
  "publish cancelled i r =
     (if \<not> cancelled then [SetLastInterruptId (or_null i), SetInterruptState (Some r)] else [])"

text \<open>Lines 324-359: \<open>stream.interrupt\<close> is truthy.\<close>

definition live_branch :: "string \<Rightarrow> bool \<Rightarrow> stream \<Rightarrow> interrupt \<Rightarrow> hook \<Rightarrow> effect list" where
  "live_branch tid cancelled st intr h =
     (if handled (iid intr) (handledInterruptIds h) then clear_if_marked cancelled h
      else if strict_eq (iid intr) (lastInterruptId h) then []
      else publish cancelled (iid intr)
             \<lparr>runId = or_default (s_runId st) ''unknown'',
              threadId = tid,
              nodeName = nodeName_of (interruptValue intr),
              pendingAction = Some (interruptValue intr),
              state = (case s_values st of Some v \<Rightarrow> v | None \<Rightarrow> []),
              interruptId = iid intr\<rparr>)"

definition allInterrupts :: "thread_state \<Rightarrow> interrupt list" where
  "allInterrupts t =
     (case ts_interrupts t of Some xs \<Rightarrow> xs | None \<Rightarrow> []) @
     (case ts_tasks t of
        Some ts \<Rightarrow> concat (map (\<lambda>task. case task of Some xs \<Rightarrow> xs | None \<Rightarrow> []) ts)
      | None \<Rightarrow> [])"

text \<open>Lines 364-417: what runs once \<open>getState\<close> has settled. \<open>cancelled\<close> is the
  value of the closure's flag at that moment.\<close>

definition fallback_branch :: "string \<Rightarrow> bool \<Rightarrow> query_outcome \<Rightarrow> hook \<Rightarrow> effect list" where
  "fallback_branch tid cancelled q h =
     (case q of
        Rejected \<Rightarrow> clear_if_marked cancelled h
      | Resolved t \<Rightarrow>
          if allInterrupts t \<noteq> [] \<and> \<not> cancelled \<and> ts_values t \<noteq> None then
            (case (allInterrupts t, ts_values t) of
               (intr # rest, Some vals) \<Rightarrow>
                 if handled (iid intr) (handledInterruptIds h) then clear_if_marked cancelled h
                 else if strict_eq (iid intr) (lastInterruptId h) then []
                 else publish cancelled (iid intr)
                        \<lparr>runId = ''unknown'',
                         threadId = tid,
                         nodeName = nodeName_of (interruptValue intr),
                         pendingAction = Some (interruptValue intr),
                         state = vals,
                         interruptId = iid intr\<rparr>
             | _ \<Rightarrow> [])
          else if \<not> cancelled then clear_if_marked cancelled h
          else [])"

text \<open>A whole tick with nothing interleaved between the query and its resolution.\<close>

definition checkInterrupts_effects ::
  "string \<Rightarrow> bool \<Rightarrow> stream \<Rightarrow> query_outcome \<Rightarrow> hook \<Rightarrow> effect list" where
  "checkInterrupts_effects tid cancelled st q h =
     (case s_interrupt st of
        Some intr \<Rightarrow> live_branch tid cancelled st intr h
      | None \<Rightarrow> fallback_branch tid cancelled q h)"

definition checkInterrupts :: "string \<Rightarrow> bool \<Rightarrow> stream \<Rightarrow> query_outcome \<Rightarrow> hook \<Rightarrow> hook" where
  "checkInterrupts tid cancelled st q h = exec (checkInterrupts_effects tid cancelled st q h) h"

section \<open>The resume coordinator: resumeRun\<close>

definition actionRequests :: "InterruptState \<Rightarrow> action_request list" where
  "actionRequests r =
     (case pendingAction r of
        None \<Rightarrow> []
      | Some p \<Rightarrow> (case action_requests p of None \<Rightarrow> [] | Some xs \<Rightarrow> xs))"

text \<open>Lines 459-488: the decisions submitted, if any. There is no branch for
  \<open>edit\<close>, and \<open>editedState\<close> is not read.\<close>

definition resumeValue :: "HITLDecision \<Rightarrow> snapshot option \<Rightarrow> InterruptState \<Rightarrow> decision_entry list option" where
  "resumeValue decision editedState r =
     (if decision = approve
        then Some (map (\<lambda>a. \<lparr>d_type = ''approve'', edited_args = None\<rparr>) (actionRequests r))
      else if decision = reject
        then Some (map (\<lambda>a. \<lparr>d_type = ''reject'', edited_args = None\<rparr>) (actionRequests r))
      else None)"

text \<open>Lines 441-451, the statements ahead of the guarded block.\<close>

definition mark_handled :: "InterruptState \<Rightarrow> effect list" where
  "mark_handled r =
     (case interruptId r of
        None \<Rightarrow> []
      | Some i \<Rightarrow> if i \<noteq> [] then [LedgerAdd i] else []) @
     [SetInterruptState None, SetLastInterruptId None]"

text \<open>Lines 489-501, the \<open>catch\<close> block.\<close>

definition rollback :: "InterruptState \<Rightarrow> effect list" where
  "rollback r =
     (case interruptId r of
        None \<Rightarrow> []
      | Some i \<Rightarrow>
          if i \<noteq> []
          then [LedgerDelete i, SetInterruptState (Some r), SetLastInterruptId (Some i)]
          else [])"

text \<open>\<open>throws\<close> says whether the call of \<open>stream.submit\<close> throws; the call is not
  awaited, so this is the only failure the \<open>catch\<close> sees.\<close>

definition resumeRun_effects ::
  "string option \<Rightarrow> HITLDecision \<Rightarrow> snapshot option \<Rightarrow> bool \<Rightarrow> hook \<Rightarrow> effect list" where
  "resumeRun_effects accessToken decision editedState throws h =
     (case interruptState h of
        None \<Rightarrow> []
      | Some r \<Rightarrow>
          if \<not> truthy accessToken then []
          else mark_handled r @
               (case resumeValue decision editedState r of
                  None \<Rightarrow> []
                | Some ds \<Rightarrow> Submit ds # (if throws then rollback r else [])))"

definition resumeRun ::
  "string option \<Rightarrow> HITLDecision \<Rightarrow> snapshot option \<Rightarrow> bool \<Rightarrow> hook \<Rightarrow> hook" where
  "resumeRun accessToken decision editedState throws h =
     exec (resumeRun_effects accessToken decision editedState throws h) h"

text \<open>How a call of \<open>stream.submit\<close> can end. The call is not awaited (lines 466
  and 481), so of the two failures only a throw of the call itself passes control to the
  \<open>catch\<close> block; a resume request that the network or the backend rejects after the
  call has returned does not.\<close>

datatype submit_outcome = Accepted | ThrewInCall | FailedLater

fun reaches_catch :: "submit_outcome \<Rightarrow> bool" where
  "reaches_catch ThrewInCall = True"
| "reaches_catch Accepted = False"
| "reaches_catch FailedLater = False"

section \<open>The component: effects of the hook under React\<close>

text \<open>
  React is a library the hook runs on. Its documented behaviour is taken as given: when a
  dependency of an effect changes, the cleanup of the previous run is called first, then
  the effects run in the order of their declaration, all in one step of the single
  timeline. Each run of the detector effect that passes its guard creates a closure with
  its own \<open>cancelled\<close> variable and its captured \<open>threadId\<close>; closures are
  numbered in the order of their creation.
\<close>

record component =
  c_hook :: hook
  c_threadId :: "string option"
  c_enableHITL :: bool
  c_accessToken :: "string option"
  c_closures :: "string list"
  c_cancelled :: "nat set"
  c_active :: "nat option"

definition initial_component :: component where
  "initial_component =
     \<lparr>c_hook = initial_hook, c_threadId = None, c_enableHITL = True, c_accessToken = None,
      c_closures = [], c_cancelled = {}, c_active = None\<rparr>"

text \<open>What the hook returns as \<open>interruptState\<close> (line 547).\<close>

definition displayed :: "component \<Rightarrow> InterruptState option" where
  "displayed c = (if c_enableHITL c then interruptState (c_hook c) else None)"

definition on_hook :: "(hook \<Rightarrow> effect list) \<Rightarrow> component \<Rightarrow> component" where
  "on_hook f c = c\<lparr>c_hook := exec (f (c_hook c)) (c_hook c)\<rparr>"

text \<open>Lines 424-427: the cleanup of the running closure.\<close>

definition hitl_cleanup :: "component \<Rightarrow> component" where
  "hitl_cleanup c =
     (case c_active c of
        None \<Rightarrow> c
      | Some k \<Rightarrow> c\<lparr>c_cancelled := insert k (c_cancelled c), c_active := None\<rparr>)"

text \<open>Lines 141-145: the effect on \<open>threadId\<close>.\<close>

definition thread_effect :: "effect list" where
  "thread_effect = [LedgerClear, SetInterruptState None, SetLastInterruptId None]"

text \<open>The synchronous part of a tick of closure \<open>k\<close> (up to the \<open>await\<close>), and
  the part that runs when its query settles.\<close>

definition tick_begin :: "nat \<Rightarrow> stream \<Rightarrow> component \<Rightarrow> component" where
  "tick_begin k st c =
     (if k < length (c_closures c) then
        (case s_interrupt st of
           Some intr \<Rightarrow> on_hook (live_branch (c_closures c ! k) (k \<in> c_cancelled c) st intr) c
         | None \<Rightarrow> c)
      else c)"

definition settle_effects :: "nat \<Rightarrow> query_outcome \<Rightarrow> component \<Rightarrow> effect list" where
  "settle_effects k q c =
     (if k < length (c_closures c)
      then fallback_branch (c_closures c ! k) (k \<in> c_cancelled c) q (c_hook c)
      else [])"

definition tick_settle :: "nat \<Rightarrow> query_outcome \<Rightarrow> component \<Rightarrow> component" where
  "tick_settle k q c = on_hook (\<lambda>h. settle_effects k q c) c"

text \<open>Lines 309-430: the detector effect, with the immediate call of line 421.\<close>

definition hitl_effect :: "stream \<Rightarrow> component \<Rightarrow> component" where
  "hitl_effect st c =
     (if \<not> c_enableHITL c \<or> \<not> truthy (c_threadId c) \<or> \<not> truthy (c_accessToken c)
      then on_hook (\<lambda>h. [SetInterruptState None, SetLastInterruptId None]) c
      else tick_begin (length (c_closures c)) st
             (c\<lparr>c_closures := c_closures c @ [or_default (c_threadId c) []],
                c_active := Some (length (c_closures c))\<rparr>))"

text \<open>A render with a new value of a dependency: the cleanup of the detector effect,
  then the effects whose dependency changed, in the order of their declaration.
  \<open>st\<close> is the stream the immediate tick reads. \<open>thread_changed\<close> is the state in
  which the detector effect of the new conversation starts.\<close>

definition thread_changed :: "string option \<Rightarrow> component \<Rightarrow> component" where
  "thread_changed t c = on_hook (\<lambda>h. thread_effect) (hitl_cleanup (c\<lparr>c_threadId := t\<rparr>))"

definition set_threadId :: "string option \<Rightarrow> stream \<Rightarrow> component \<Rightarrow> component" where
  "set_threadId t st c =
     (if t = c_threadId c then c else hitl_effect st (thread_changed t c))"

definition set_enableHITL :: "bool \<Rightarrow> stream \<Rightarrow> component \<Rightarrow> component" where
  "set_enableHITL b st c =
     (if b = c_enableHITL c then c
      else hitl_effect st (hitl_cleanup (c\<lparr>c_enableHITL := b\<rparr>)))"

definition set_accessToken :: "string option \<Rightarrow> stream \<Rightarrow> component \<Rightarrow> component" where
  "set_accessToken a st c =
     (if a = c_accessToken c then c
      else hitl_effect st (hitl_cleanup (c\<lparr>c_accessToken := a\<rparr>)))"

datatype op =
    SetThreadId "string option" stream
  | SetEnableHITL bool stream
  | SetAccessToken "string option" stream
  | Unmount
  | Tick stream
  | Settle nat query_outcome
  | ResumeRun HITLDecision "snapshot option" bool

text \<open>\<open>Tick\<close> is the interval firing for the running closure; \<open>Settle k\<close> is a query
  of closure \<open>k\<close> settling, at any later time.\<close>

fun step :: "component \<Rightarrow> op \<Rightarrow> component" where
  "step c (SetThreadId t st) = set_threadId t st c"
| "step c (SetEnableHITL b st) = set_enableHITL b st c"
| "step c (SetAccessToken a st) = set_accessToken a st c"
| "step c Unmount = hitl_cleanup c"
| "step c (Tick st) = (case c_active c of None \<Rightarrow> c | Some k \<Rightarrow> tick_begin k st c)"
| "step c (Settle k q) = tick_settle k q c"
| "step c (ResumeRun d e throws) = on_hook (resumeRun_effects (c_accessToken c) d e throws) c"

definition run :: "op list \<Rightarrow> component \<Rightarrow> component" where
  "run ops c = foldl step c ops"

text \<open>The marker and the displayed record agree: the marker is \<open>interruptId || null\<close>
  of the displayed record, and null when nothing is displayed.\<close>

definition in_sync :: "hook \<Rightarrow> bool" where
  "in_sync h =
     (case interruptState h of
        None \<Rightarrow> lastInterruptId h = None
      | Some r \<Rightarrow> lastInterruptId h = or_null (interruptId r))"

text \<open>The operations that cancel the running closure: a change of a dependency of the
  detector effect, and the unmount.\<close>

fun tears_down :: "component \<Rightarrow> op \<Rightarrow> bool" where
  "tears_down c (SetThreadId t st) = (t \<noteq> c_threadId c)"
| "tears_down c (SetEnableHITL b st) = (b \<noteq> c_enableHITL c)"
| "tears_down c (SetAccessToken a st) = (a \<noteq> c_accessToken c)"
| "tears_down c Unmount = True"
| "tears_down c other = False"

text \<open>The interrupt a tick reports, if any: the live one, else the first of the query
  when the state has values.\<close>

definition reported :: "stream \<Rightarrow> query_outcome \<Rightarrow> interrupt option" where
  "reported st q =
     (case s_interrupt st of
        Some intr \<Rightarrow> Some intr
      | None \<Rightarrow>
          (case q of
             Rejected \<Rightarrow> None
           | Resolved t \<Rightarrow>
               (case allInterrupts t of
                  [] \<Rightarrow> None
                | intr # rest \<Rightarrow> if ts_values t \<noteq> None then Some intr else None)))"

section \<open>Sample inputs\<close>

text \<open>A pause on \<open>analyze_image\<close> with identifier \<open>i1\<close>, the same pause without an
  identifier, a pause with three action requests, and the states that show them in
  conversation \<open>A\<close>.\<close>

definition ar_analyze :: action_request where
  "ar_analyze = \<lparr>ar_name = Some ''analyze_image'', ar_args = [(''x'', ''1'')]\<rparr>"

definition pay_analyze :: payload where
  "pay_analyze = \<lparr>action_requests = Some [ar_analyze], pname = None\<rparr>"

definition pay_abc :: payload where
  "pay_abc =
     \<lparr>action_requests = Some [\<lparr>ar_name = Some ''a'', ar_args = []\<rparr>,
                               \<lparr>ar_name = Some ''b'', ar_args = []\<rparr>,
                               \<lparr>ar_name = Some ''c'', ar_args = []\<rparr>],
      pname = None\<rparr>"

definition intr_i1 :: interrupt where
  "intr_i1 =
     \<lparr>iid = Some ''i1'', ivalue = Some pay_analyze,
      iown = \<lparr>action_requests = None, pname = None\<rparr>\<rparr>"

definition intr_noid :: interrupt where
  "intr_noid =
     \<lparr>iid = None, ivalue = Some pay_analyze,
      iown = \<lparr>action_requests = None, pname = None\<rparr>\<rparr>"

definition live :: "interrupt \<Rightarrow> stream" where
  "live intr = \<lparr>s_interrupt = Some intr, s_runId = None, s_values = None\<rparr>"

definition no_live :: stream where
  "no_live = \<lparr>s_interrupt = None, s_runId = None, s_values = None\<rparr>"

definition rec_i1 :: InterruptState where
  "rec_i1 =
     \<lparr>runId = ''unknown'', threadId = ''A'', nodeName = ''analyze_image'',
      pendingAction = Some pay_analyze, state = [], interruptId = Some ''i1''\<rparr>"

definition rec_noid :: InterruptState where
  "rec_noid =
     \<lparr>runId = ''unknown'', threadId = ''A'', nodeName = ''analyze_image'',
      pendingAction = Some pay_analyze, state = [], interruptId = None\<rparr>"

definition rec_abc :: InterruptState where
  "rec_abc =
     \<lparr>runId = ''unknown'', threadId = ''A'', nodeName = ''a'',
      pendingAction = Some pay_abc, state = [], interruptId = Some ''i3''\<rparr>"

definition shows_i1 :: hook where
  "shows_i1 =
     \<lparr>interruptState = Some rec_i1, handledInterruptIds = {}, lastInterruptId = Some ''i1''\<rparr>"

definition shows_abc :: hook where
  "shows_abc =
     \<lparr>interruptState = Some rec_abc, handledInterruptIds = {}, lastInterruptId = Some ''i3''\<rparr>"

definition shows_noid :: hook where
  "shows_noid =
     \<lparr>interruptState = Some rec_noid, handledInterruptIds = {}, lastInterruptId = None\<rparr>"

definition shows_noid_after_i1 :: hook where
  "shows_noid_after_i1 =
     \<lparr>interruptState = Some rec_noid, handledInterruptIds = {''i1''}, lastInterruptId = None\<rparr>"

definition paused_without_values :: query_outcome where
  "paused_without_values =
     Resolved \<lparr>ts_interrupts = Some [intr_i1], ts_tasks = None, ts_values = None\<rparr>"

definition paused_with_values :: query_outcome where
  "paused_with_values =
     Resolved \<lparr>ts_interrupts = Some [intr_i1], ts_tasks = Some [], ts_values = Some []\<rparr>"

text \<open>The component while the detector of conversation \<open>A\<close> runs, with nothing shown
  and with the identifier-less record shown after \<open>i1\<close> was resolved.\<close>

definition watching_A :: component where
  "watching_A =
     \<lparr>c_hook = initial_hook, c_threadId = Some ''A'', c_enableHITL = True,
      c_accessToken = Some ''tok'', c_closures = [''A''], c_cancelled = {},
      c_active = Some 0\<rparr>"

definition busy_A :: component where
  "busy_A =
     \<lparr>c_hook = shows_noid_after_i1, c_threadId = Some ''A'', c_enableHITL = True,
      c_accessToken = Some ''tok'', c_closures = [''A''], c_cancelled = {},
      c_active = Some 0\<rparr>"

text \<open>The definitions of the hook, for evaluating it on the samples.\<close>

lemmas hook_defs = exec_def checkInterrupts_def checkInterrupts_effects_def live_branch_def
  fallback_branch_def allInterrupts_def publish_def clear_if_marked_def handled_def
  strict_eq_def or_null_def truthy_def js_or_def or_default_def nodeName_of_def
  first_request_name_def interruptValue_def resumeRun_def resumeRun_effects_def
  resumeValue_def mark_handled_def rollback_def actionRequests_def initial_hook_def

section \<open>Running effects\<close>

lemma exec_Nil: "exec [] h = h"
  by (simp add: exec_def)

lemma exec_Cons: "exec (e # es) h = exec es (exec1 h e)"
  by (simp add: exec_def)

lemma exec_append: "exec (es @ fs) h = exec fs (exec es h)"
  by (simp add: exec_def)

lemma publishes_Nil: "publishes [] = []"
  by (simp add: publishes_def)

lemma publishes_pair: "publishes [SetLastInterruptId m, SetInterruptState (Some r)] = [r]"
  by (simp add: publishes_def)

lemma publishes_clear: "publishes (clear_if_marked b h) = []"
  by (auto simp: publishes_def clear_if_marked_def)

lemma submitted_simps:
  "submitted [] = []"
  "submitted (Submit ds # es) = ds # submitted es"
  "submitted (LedgerAdd i # es) = submitted es"
  "submitted (LedgerDelete i # es) = submitted es"
  "submitted (LedgerClear # es) = submitted es"
  "submitted (SetInterruptState x # es) = submitted es"
  "submitted (SetLastInterruptId m # es) = submitted es"
  "submitted (es @ fs) = submitted es @ submitted fs"
  by (simp_all add: submitted_def)

lemma before_submit_Submit: "before_submit (Submit ds # rest) = []"
  by (simp add: before_submit_def)

lemma before_submit_Nil: "before_submit [] = []"
  by (simp add: before_submit_def)

section \<open>The resume coordinator\<close>

lemma exec_mark_handled:
  "exec (mark_handled r) h =
     \<lparr>interruptState = None,
      handledInterruptIds =
        (case interruptId r of
           None \<Rightarrow> handledInterruptIds h
         | Some i \<Rightarrow> if i \<noteq> [] then insert i (handledInterruptIds h)
                    else handledInterruptIds h),
      lastInterruptId = None\<rparr>"
  by (simp add: mark_handled_def exec_Cons exec_Nil exec_append split: option.splits)

lemma exec_rollback:
  "interruptId r = Some i \<Longrightarrow> i \<noteq> [] \<Longrightarrow>
   exec (rollback r) h =
     \<lparr>interruptState = Some r, handledInterruptIds = handledInterruptIds h - {i},
      lastInterruptId = Some i\<rparr>"
  by (simp add: rollback_def exec_Cons exec_Nil)

lemma submitted_mark_handled: "submitted (mark_handled r) = []"
  by (simp add: mark_handled_def submitted_simps split: option.splits)

lemma submitted_rollback: "submitted (rollback r) = []"
  by (simp add: rollback_def submitted_simps split: option.splits)

lemma before_submit_mark:
  "before_submit (mark_handled r @ rest) = mark_handled r @ before_submit rest"
  by (simp add: before_submit_def mark_handled_def split: option.splits)

lemma before_submit_resumeRun:
  assumes "interruptState h = Some r" and "truthy accessToken"
  shows "before_submit (resumeRun_effects accessToken decision editedState throws h)
           = mark_handled r"
  using assms
  by (simp add: resumeRun_effects_def before_submit_mark before_submit_Submit before_submit_Nil
      split: option.splits)

lemma resumeRun_effects_split:
  assumes "interruptState h = Some r" and "truthy accessToken" and "decision \<noteq> edit"
  shows "\<exists>ds. resumeValue decision editedState r = Some ds \<and>
           resumeRun_effects accessToken decision editedState throws h =
             mark_handled r @ Submit ds # (if throws then rollback r else [])"
  using assms by (cases decision) (simp_all add: resumeRun_effects_def resumeValue_def)

lemma submitted_resumeRun:
  "resumeValue decision editedState r = Some ds \<Longrightarrow> interruptState h = Some r \<Longrightarrow>
   truthy accessToken \<Longrightarrow>
   submitted (resumeRun_effects accessToken decision editedState throws h) = [ds]"
  by (simp add: resumeRun_effects_def submitted_simps submitted_mark_handled submitted_rollback)

lemma resumeRun_idless_ledger:
  assumes "\<not> truthy (interruptId r)"
  shows "handledInterruptIds (resumeRun tok d e thr (h\<lparr>interruptState := Some r\<rparr>))
           = handledInterruptIds h"
  using assms
  by (cases d)
     (auto simp: resumeRun_def resumeRun_effects_def resumeValue_def exec_append
        exec_mark_handled exec_Cons exec_Nil rollback_def truthy_def split: option.splits)

text \<open>
  C2. When \<open>resumeRun\<close> is called with a record displayed and an access token, the
  effects that come before the call of \<open>stream.submit\<close> leave a state in which the
  record's identifier, if it has one (a non-empty string, the test the hook makes), is in
  the ledger, nothing is displayed and the marker is null; and for \<open>approve\<close> and
  \<open>reject\<close> the call of \<open>stream.submit\<close> follows exactly those effects.
\<close>

theorem resumeRun_marks_before_submit:
  assumes "interruptState h = Some r" and "truthy accessToken"
  shows "let es = resumeRun_effects accessToken decision editedState throws h;
             h1 = exec (before_submit es) h
         in (truthy (interruptId r) \<longrightarrow> handled (interruptId r) (handledInterruptIds h1))
            \<and> interruptState h1 = None
            \<and> lastInterruptId h1 = None
            \<and> (decision \<noteq> edit \<longrightarrow> (\<exists>ds rest. es = before_submit es @ Submit ds # rest))"
proof -
  have b: "before_submit (resumeRun_effects accessToken decision editedState throws h)
             = mark_handled r"
    by (rule before_submit_resumeRun [OF assms])
  have s: "decision \<noteq> edit \<Longrightarrow> \<exists>ds rest.
      resumeRun_effects accessToken decision editedState throws h
        = mark_handled r @ Submit ds # rest"
    using resumeRun_effects_split [OF assms] by blast
  have l: "truthy (interruptId r) \<Longrightarrow>
      handled (interruptId r) (handledInterruptIds (exec (mark_handled r) h))"
    by (auto simp: exec_mark_handled truthy_def handled_def split: option.splits)
  show ?thesis
    unfolding Let_def b using s l by (simp add: exec_mark_handled)
qed

theorem resumeRun_marks_before_submit_witness:
  "interruptState shows_i1 = Some rec_i1 \<and> truthy (Some ''tok'') \<and> truthy (interruptId rec_i1)
   \<and> ''i1'' \<in> handledInterruptIds
        (exec (before_submit (resumeRun_effects (Some ''tok'') approve None False shows_i1))
           shows_i1)
   \<and> interruptState
        (exec (before_submit (resumeRun_effects (Some ''tok'') approve None False shows_i1))
           shows_i1) = None
   \<and> resumeRun_effects (Some ''tok'') approve None False shows_i1
       = before_submit (resumeRun_effects (Some ''tok'') approve None False shows_i1)
         @ [Submit [\<lparr>d_type = ''approve'', edited_args = None\<rparr>]]"
proof -
  have a: "interruptState shows_i1 = Some rec_i1" by (simp add: shows_i1_def)
  have t: "truthy (Some ''tok'')" by (simp add: truthy_def)
  have i: "truthy (interruptId rec_i1)" by (simp add: rec_i1_def truthy_def)
  have e: "resumeRun_effects (Some ''tok'') approve None False shows_i1
       = before_submit (resumeRun_effects (Some ''tok'') approve None False shows_i1)
         @ [Submit [\<lparr>d_type = ''approve'', edited_args = None\<rparr>]]"
    by (simp add: shows_i1_def rec_i1_def pay_analyze_def ar_analyze_def hook_defs
        before_submit_def)
  show ?thesis
    using resumeRun_marks_before_submit [OF a t, of approve None False] a t i e
    by (simp add: Let_def handled_def rec_i1_def)
qed

text \<open>
  The \<open>catch\<close> block, when it is reached. For a displayed record with a non-empty
  identifier and a decision that submits (\<open>approve\<close> or \<open>reject\<close>), if the call
  of \<open>stream.submit\<close> itself throws, then afterwards the identifier is not in the
  ledger, the same record is displayed, the marker is its identifier, and a second
  \<open>resumeRun\<close> submits the same decisions again.
\<close>

theorem failed_resume_restores:
  assumes "interruptState h = Some r" and "truthy accessToken"
    and "interruptId r = Some i" and "i \<noteq> []" and "decision \<noteq> edit"
  shows "i \<notin> handledInterruptIds (resumeRun accessToken decision editedState True h)
       \<and> interruptState (resumeRun accessToken decision editedState True h) = Some r
       \<and> lastInterruptId (resumeRun accessToken decision editedState True h) = Some i
       \<and> submitted (resumeRun_effects accessToken decision editedState throws
            (resumeRun accessToken decision editedState True h))
         = submitted (resumeRun_effects accessToken decision editedState True h)
       \<and> length (submitted (resumeRun_effects accessToken decision editedState True h)) = 1"
proof -
  let ?h' = "resumeRun accessToken decision editedState True h"
  obtain ds where rv: "resumeValue decision editedState r = Some ds"
    and es: "resumeRun_effects accessToken decision editedState True h =
               mark_handled r @ Submit ds # rollback r"
    using resumeRun_effects_split [OF assms(1) assms(2) assms(5), of editedState True] by auto
  have h': "?h' = \<lparr>interruptState = Some r,
                     handledInterruptIds = insert i (handledInterruptIds h) - {i},
                     lastInterruptId = Some i\<rparr>"
    using assms(3) assms(4)
    by (simp add: resumeRun_def es exec_append exec_Cons exec_mark_handled exec_rollback)
  have shown: "interruptState ?h' = Some r" by (simp add: h')
  have s1: "submitted (resumeRun_effects accessToken decision editedState True h) = [ds]"
    by (rule submitted_resumeRun [OF rv assms(1) assms(2)])
  have s2: "submitted (resumeRun_effects accessToken decision editedState throws ?h') = [ds]"
    by (rule submitted_resumeRun [OF rv shown assms(2)])
  show ?thesis
    unfolding s1 s2 by (simp add: h')
qed

theorem failed_resume_restores_witness:
  "interruptState shows_i1 = Some rec_i1 \<and> truthy (Some ''tok'')
   \<and> interruptId rec_i1 = Some ''i1'' \<and> reject \<noteq> edit
   \<and> ''i1'' \<notin> handledInterruptIds (resumeRun (Some ''tok'') reject None True shows_i1)
   \<and> interruptState (resumeRun (Some ''tok'') reject None True shows_i1) = Some rec_i1
   \<and> lastInterruptId (resumeRun (Some ''tok'') reject None True shows_i1) = Some ''i1''
   \<and> submitted (resumeRun_effects (Some ''tok'') reject None False
        (resumeRun (Some ''tok'') reject None True shows_i1))
       = [[\<lparr>d_type = ''reject'', edited_args = None\<rparr>]]"
proof -
  have a: "interruptState shows_i1 = Some rec_i1" by (simp add: shows_i1_def)
  have t: "truthy (Some ''tok'')" by (simp add: truthy_def)
  have i: "interruptId rec_i1 = Some ''i1''" by (simp add: rec_i1_def)
  have n: "''i1'' \<noteq> []" by simp
  have d: "reject \<noteq> edit" by simp
  have s: "submitted (resumeRun_effects (Some ''tok'') reject None True shows_i1)
             = [[\<lparr>d_type = ''reject'', edited_args = None\<rparr>]]"
    by (simp add: shows_i1_def rec_i1_def pay_analyze_def ar_analyze_def hook_defs
        submitted_def)
  show ?thesis
    using failed_resume_restores [OF a t i n d, of None False] a t i s by simp
qed

text \<open>The rollback is inside \<open>if (interruptId)\<close>: for a record without identifier
  the request is submitted, the call throws, and the record is not displayed again.\<close>

theorem idless_not_restored:
  "interruptState shows_noid = Some rec_noid
   \<and> submitted (resumeRun_effects (Some ''tok'') reject None True shows_noid)
       = [[\<lparr>d_type = ''reject'', edited_args = None\<rparr>]]
   \<and> interruptState (resumeRun (Some ''tok'') reject None True shows_noid) \<noteq> Some rec_noid"
  by (simp add: shows_noid_def rec_noid_def pay_analyze_def ar_analyze_def hook_defs
      submitted_def)

text \<open>
  C3. With the record of \<open>i1\<close> displayed, \<open>reject\<close> submits the resume request;
  the call returns and the request fails afterwards. The \<open>catch\<close> block is not
  reached, so nothing is rolled back: \<open>i1\<close> stays in the ledger, nothing is
  displayed, the marker is null, a second \<open>resumeRun\<close> does nothing, and a tick that
  reports \<open>i1\<close> again, on either channel, does not display it. The interrupt cannot
  be retried.
\<close>

theorem unawaited_failure_not_rolled_back:
  "interruptState shows_i1 = Some rec_i1
   \<and> interruptId rec_i1 = Some ''i1''
   \<and> \<not> reaches_catch FailedLater
   \<and> submitted (resumeRun_effects (Some ''tok'') reject None (reaches_catch FailedLater) shows_i1)
       = [[\<lparr>d_type = ''reject'', edited_args = None\<rparr>]]
   \<and> resumeRun (Some ''tok'') reject None (reaches_catch FailedLater) shows_i1
       = \<lparr>interruptState = None, handledInterruptIds = {''i1''}, lastInterruptId = None\<rparr>
   \<and> resumeRun_effects (Some ''tok'') reject None (reaches_catch ThrewInCall)
        (resumeRun (Some ''tok'') reject None (reaches_catch FailedLater) shows_i1) = []
   \<and> checkInterrupts ''A'' False (live intr_i1) Rejected
        (resumeRun (Some ''tok'') reject None (reaches_catch FailedLater) shows_i1)
       = \<lparr>interruptState = None, handledInterruptIds = {''i1''}, lastInterruptId = None\<rparr>
   \<and> checkInterrupts ''A'' False no_live paused_with_values
        (resumeRun (Some ''tok'') reject None (reaches_catch FailedLater) shows_i1)
       = \<lparr>interruptState = None, handledInterruptIds = {''i1''}, lastInterruptId = None\<rparr>"
  by (simp add: shows_i1_def rec_i1_def intr_i1_def pay_analyze_def ar_analyze_def live_def
      no_live_def paused_with_values_def hook_defs submitted_def)

text \<open>
  C4. \<open>resumeRun\<close> has no branch for \<open>edit\<close>: with the record of \<open>i1\<close> displayed
  (one action request), an edit decision submits nothing, while the record is cleared and
  its identifier entered in the ledger.
\<close>

theorem edit_submits_nothing:
  "length (actionRequests rec_i1) = 1
   \<and> submitted (resumeRun_effects (Some ''tok'') edit (Some [(''x'', ''2'')]) False shows_i1) = []
   \<and> resumeRun (Some ''tok'') edit (Some [(''x'', ''2'')]) False shows_i1
       = \<lparr>interruptState = None, handledInterruptIds = {''i1''}, lastInterruptId = None\<rparr>"
  by (simp add: shows_i1_def rec_i1_def pay_analyze_def ar_analyze_def hook_defs
      submitted_def)

text \<open>
  C6. With a record displayed whose pending action lists the action requests \<open>xs\<close>,
  and an access token, \<open>approve\<close> submits one request whose decisions are
  \<open>length xs\<close> copies of \<open>{type: "approve"}\<close>, one for each element of \<open>xs\<close> in
  its order; \<open>reject\<close> likewise.
\<close>

theorem uniform_decisions:
  assumes "interruptState h = Some r" and "truthy accessToken"
    and "pendingAction r = Some p" and "action_requests p = Some xs"
  shows "submitted (resumeRun_effects accessToken approve editedState throws h)
           = [map (\<lambda>a. \<lparr>d_type = ''approve'', edited_args = None\<rparr>) xs]
       \<and> submitted (resumeRun_effects accessToken reject editedState throws h)
           = [map (\<lambda>a. \<lparr>d_type = ''reject'', edited_args = None\<rparr>) xs]
       \<and> map (\<lambda>a. \<lparr>d_type = ''approve'', edited_args = None\<rparr>) xs
           = replicate (length xs) \<lparr>d_type = ''approve'', edited_args = None\<rparr>
       \<and> map (\<lambda>a. \<lparr>d_type = ''reject'', edited_args = None\<rparr>) xs
           = replicate (length xs) \<lparr>d_type = ''reject'', edited_args = None\<rparr>"
proof -
  have n: "actionRequests r = xs"
    using assms(3) assms(4) by (simp add: actionRequests_def)
  have a: "resumeValue approve editedState r
             = Some (map (\<lambda>a. \<lparr>d_type = ''approve'', edited_args = None\<rparr>) xs)"
    by (simp add: resumeValue_def n)
  have b: "resumeValue reject editedState r
             = Some (map (\<lambda>a. \<lparr>d_type = ''reject'', edited_args = None\<rparr>) xs)"
    by (simp add: resumeValue_def n)
  show ?thesis
    by (simp add: submitted_resumeRun [OF a assms(1) assms(2)]
        submitted_resumeRun [OF b assms(1) assms(2)] map_replicate_const)
qed

theorem uniform_decisions_witness:
  "interruptState shows_abc = Some rec_abc \<and> truthy (Some ''tok'')
   \<and> pendingAction rec_abc = Some pay_abc
   \<and> submitted (resumeRun_effects (Some ''tok'') approve None False shows_abc)
       = [[\<lparr>d_type = ''approve'', edited_args = None\<rparr>,
           \<lparr>d_type = ''approve'', edited_args = None\<rparr>,
           \<lparr>d_type = ''approve'', edited_args = None\<rparr>]]
   \<and> submitted (resumeRun_effects (Some ''tok'') reject None False shows_abc)
       = [[\<lparr>d_type = ''reject'', edited_args = None\<rparr>,
           \<lparr>d_type = ''reject'', edited_args = None\<rparr>,
           \<lparr>d_type = ''reject'', edited_args = None\<rparr>]]"
proof -
  have a: "interruptState shows_abc = Some rec_abc" by (simp add: shows_abc_def)
  have t: "truthy (Some ''tok'')" by (simp add: truthy_def)
  have p: "pendingAction rec_abc = Some pay_abc" by (simp add: rec_abc_def)
  have x: "action_requests pay_abc = Some [\<lparr>ar_name = Some ''a'', ar_args = []\<rparr>,
                               \<lparr>ar_name = Some ''b'', ar_args = []\<rparr>,
                               \<lparr>ar_name = Some ''c'', ar_args = []\<rparr>]"
    by (simp add: pay_abc_def)
  show ?thesis
    using uniform_decisions [OF a t p x, of None False] a t p by simp
qed

section \<open>The detector\<close>

lemma clear_if_marked_cancelled: "clear_if_marked True h = []"
  by (simp add: clear_if_marked_def)

lemma fallback_cancelled: "fallback_branch tid True q h = []"
  by (simp add: fallback_branch_def clear_if_marked_def split: query_outcome.splits)

lemma exec_clear_if_marked_ledger:
  "handledInterruptIds (exec (clear_if_marked b h) h) = handledInterruptIds h"
  by (simp add: clear_if_marked_def exec_Cons exec_Nil)

lemma exec_publish_ledger:
  "handledInterruptIds (exec (publish b i r) h) = handledInterruptIds h"
  by (simp add: publish_def exec_Cons exec_Nil)

lemma live_ledger:
  "handledInterruptIds (exec (live_branch tid b st intr h) h) = handledInterruptIds h"
  by (simp add: live_branch_def exec_clear_if_marked_ledger exec_publish_ledger exec_Nil)

lemma fallback_ledger:
  "handledInterruptIds (exec (fallback_branch tid b q h) h) = handledInterruptIds h"
  by (simp add: fallback_branch_def exec_clear_if_marked_ledger exec_publish_ledger exec_Nil
      split: query_outcome.splits list.splits option.splits)

text \<open>An interrupt whose identifier is in the ledger is never published, on either
  channel: all the tick may do is the guarded clear. A query that resolves without values
  publishes nothing either.\<close>

lemma handled_live:
  "handled (iid intr) (handledInterruptIds h) \<Longrightarrow>
   live_branch tid b st intr h = clear_if_marked b h"
  by (simp add: live_branch_def)

lemma handled_fallback:
  "allInterrupts t = x # rest \<Longrightarrow> handled (iid x) (handledInterruptIds h) \<Longrightarrow>
   fallback_branch tid b (Resolved t) h = clear_if_marked b h"
  by (cases "ts_values t") (simp_all add: fallback_branch_def clear_if_marked_cancelled)

lemma no_values_fallback:
  "ts_values t = None \<Longrightarrow> fallback_branch tid b (Resolved t) h = clear_if_marked b h"
  by (simp add: fallback_branch_def clear_if_marked_cancelled)

lemma reported_tick:
  assumes "reported st q = Some x" and "iid x = Some i" and "i \<noteq> []"
    and "i \<notin> handledInterruptIds h"
  shows "\<exists>r. checkInterrupts_effects tid False st q h =
           (if lastInterruptId h = Some i then []
            else [SetLastInterruptId (Some i), SetInterruptState (Some r)])"
proof (cases "s_interrupt st")
  case (Some y)
  with assms have "y = x" by (simp add: reported_def)
  with Some assms show ?thesis
    by (simp add: checkInterrupts_effects_def live_branch_def handled_def strict_eq_def
        publish_def or_null_def truthy_def)
next
  case None
  with assms obtain t rest vals where "q = Resolved t" and "allInterrupts t = x # rest"
    and "ts_values t = Some vals"
    by (auto simp: reported_def split: query_outcome.splits list.splits if_splits)
  with None assms show ?thesis
    by (simp add: checkInterrupts_effects_def fallback_branch_def handled_def strict_eq_def
        publish_def or_null_def truthy_def)
qed

text \<open>
  C1. The clear of a handled interrupt is guarded by the marker being non-null, and the
  marker is null while a record without identifier is displayed. After \<open>i1\<close> was shown
  and approved and the identifier-less pause was shown (the state reached by the three
  steps below), a tick that reports \<open>i1\<close> again, on either channel, finds it in the
  ledger and leaves the displayed record where it is.
\<close>

theorem handled_tick_keeps_idless_record:
  "checkInterrupts ''A'' False (live intr_noid) Rejected
     (resumeRun (Some ''tok'') approve None False
        (checkInterrupts ''A'' False (live intr_i1) Rejected initial_hook))
     = shows_noid_after_i1
   \<and> interruptState shows_noid_after_i1 = Some rec_noid
   \<and> handled (iid intr_i1) (handledInterruptIds shows_noid_after_i1)
   \<and> reported (live intr_i1) Rejected = Some intr_i1
   \<and> reported no_live paused_with_values = Some intr_i1
   \<and> checkInterrupts ''A'' False (live intr_i1) Rejected shows_noid_after_i1
       = shows_noid_after_i1
   \<and> checkInterrupts ''A'' False no_live paused_with_values shows_noid_after_i1
       = shows_noid_after_i1"
  by (simp add: shows_noid_after_i1_def rec_noid_def intr_i1_def intr_noid_def pay_analyze_def
      ar_analyze_def live_def no_live_def paused_with_values_def hook_defs reported_def)

text \<open>
  C5, for interrupts that carry an identifier. Two consecutive ticks that report an
  interrupt with the same non-empty identifier \<open>i\<close>, not in the ledger, publish once
  in all when the marker was not \<open>i\<close> before the first, and not at all when it was:
  the second tick is stopped by the equality of the identifier with the marker. A record
  without identifier is never entered in the ledger by \<open>resumeRun\<close>.
\<close>

theorem same_id_published_once:
  assumes "reported st1 q1 = Some x1" and "reported st2 q2 = Some x2"
    and "iid x1 = Some i" and "iid x2 = Some i" and "i \<noteq> []"
    and "i \<notin> handledInterruptIds h"
    and "\<not> truthy (interruptId r0)"
  shows "length (publishes (checkInterrupts_effects tid False st1 q1 h)
               @ publishes (checkInterrupts_effects tid False st2 q2
                    (checkInterrupts tid False st1 q1 h)))
           = (if lastInterruptId h = Some i then 0 else 1)
       \<and> publishes (checkInterrupts_effects tid False st2 q2
                    (checkInterrupts tid False st1 q1 h)) = []
       \<and> handledInterruptIds (resumeRun tok d e thr (h\<lparr>interruptState := Some r0\<rparr>))
           = handledInterruptIds h"
proof -
  obtain r where e1: "checkInterrupts_effects tid False st1 q1 h =
      (if lastInterruptId h = Some i then []
       else [SetLastInterruptId (Some i), SetInterruptState (Some r)])"
    using reported_tick [OF assms(1) assms(3) assms(5) assms(6)] by blast
  let ?h1 = "checkInterrupts tid False st1 q1 h"
  have m: "lastInterruptId ?h1 = Some i" and l: "i \<notin> handledInterruptIds ?h1"
    using assms(6) by (simp_all add: checkInterrupts_def e1 exec_Cons exec_Nil)
  obtain r' where e2: "checkInterrupts_effects tid False st2 q2 ?h1 =
      (if lastInterruptId ?h1 = Some i then []
       else [SetLastInterruptId (Some i), SetInterruptState (Some r')])"
    using reported_tick [OF assms(2) assms(4) assms(5) l] by blast
  have p2: "publishes (checkInterrupts_effects tid False st2 q2 ?h1) = []"
    unfolding e2 m by (simp add: publishes_Nil)
  have p1: "length (publishes (checkInterrupts_effects tid False st1 q1 h)
               @ publishes (checkInterrupts_effects tid False st2 q2 ?h1))
           = (if lastInterruptId h = Some i then 0 else 1)"
    unfolding p2 unfolding e1 by (simp add: publishes_Nil publishes_pair)
  have p3: "handledInterruptIds (resumeRun tok d e thr (h\<lparr>interruptState := Some r0\<rparr>))
           = handledInterruptIds h"
    by (rule resumeRun_idless_ledger [OF assms(7)])
  show ?thesis
    using p1 p2 p3 by blast
qed

theorem same_id_published_once_witness:
  "reported (live intr_i1) Rejected = Some intr_i1
   \<and> reported no_live paused_with_values = Some intr_i1
   \<and> iid intr_i1 = Some ''i1'' \<and> ''i1'' \<notin> handledInterruptIds initial_hook
   \<and> \<not> truthy (interruptId rec_noid)
   \<and> length (publishes (checkInterrupts_effects ''A'' False (live intr_i1) Rejected initial_hook)
             @ publishes (checkInterrupts_effects ''A'' False no_live paused_with_values
                 (checkInterrupts ''A'' False (live intr_i1) Rejected initial_hook))) = 1
   \<and> handledInterruptIds
        (resumeRun (Some ''tok'') approve None False (initial_hook\<lparr>interruptState := Some rec_noid\<rparr>))
       = {}"
proof -
  have a: "reported (live intr_i1) Rejected = Some intr_i1"
    by (simp add: reported_def live_def)
  have b: "reported no_live paused_with_values = Some intr_i1"
    by (simp add: reported_def no_live_def paused_with_values_def allInterrupts_def)
  have i: "iid intr_i1 = Some ''i1''" by (simp add: intr_i1_def)
  have n: "''i1'' \<noteq> []" by simp
  have l: "''i1'' \<notin> handledInterruptIds initial_hook" by (simp add: initial_hook_def)
  have r: "\<not> truthy (interruptId rec_noid)" by (simp add: rec_noid_def truthy_def)
  have m: "lastInterruptId initial_hook = None" "handledInterruptIds initial_hook = {}"
    by (simp_all add: initial_hook_def)
  note w = same_id_published_once [OF a b i i n l r, of "''A''" "Some ''tok''" approve None False]
  have c1: "length (publishes (checkInterrupts_effects ''A'' False (live intr_i1) Rejected initial_hook)
             @ publishes (checkInterrupts_effects ''A'' False no_live paused_with_values
                 (checkInterrupts ''A'' False (live intr_i1) Rejected initial_hook))) = 1"
    using w [THEN conjunct1] m(1) by simp
  have c2: "handledInterruptIds
        (resumeRun (Some ''tok'') approve None False (initial_hook\<lparr>interruptState := Some rec_noid\<rparr>))
       = {}"
    using w [THEN conjunct2, THEN conjunct2] m(2) by simp
  show ?thesis
    using a b i l r c1 c2 by blast
qed

text \<open>The claim as written fails at an interrupt without identifier: each of two
  consecutive ticks that report it publishes it.\<close>

theorem idless_published_twice:
  "length (publishes (checkInterrupts_effects ''A'' False (live intr_noid) Rejected initial_hook)
         @ publishes (checkInterrupts_effects ''A'' False (live intr_noid) Rejected
             (checkInterrupts ''A'' False (live intr_noid) Rejected initial_hook))) = 2"
  by (simp add: intr_noid_def pay_analyze_def ar_analyze_def live_def hook_defs publishes_def)

text \<open>
  C10. The clear of the branch without values is guarded by the marker being non-null
  as well. With the identifier-less record displayed (the state one tick reaches from the
  initial one), a tick whose live probe is empty and whose query returns an interrupt but
  no values publishes nothing and leaves that record displayed.
\<close>

theorem missing_values_keeps_idless_record:
  "checkInterrupts ''A'' False (live intr_noid) Rejected initial_hook = shows_noid
   \<and> interruptState shows_noid = Some rec_noid
   \<and> publishes (checkInterrupts_effects ''A'' False no_live paused_without_values shows_noid) = []
   \<and> checkInterrupts ''A'' False no_live paused_without_values shows_noid = shows_noid"
  by (simp add: shows_noid_def rec_noid_def intr_i1_def intr_noid_def pay_analyze_def
      ar_analyze_def live_def no_live_def paused_without_values_def hook_defs publishes_def)

section \<open>The component\<close>

lemma on_hook_Nil: "on_hook (\<lambda>h. []) c = c"
  by (simp add: on_hook_def exec_Nil)

lemma on_hook_cancelled: "c_cancelled (on_hook f c) = c_cancelled c"
  by (simp add: on_hook_def)

lemma cleanup_cancelled: "k \<in> c_cancelled c \<Longrightarrow> k \<in> c_cancelled (hitl_cleanup c)"
  by (simp add: hitl_cleanup_def split: option.splits)

lemma cleanup_cancels: "c_active c = Some k \<Longrightarrow> k \<in> c_cancelled (hitl_cleanup c)"
  by (simp add: hitl_cleanup_def)

lemma cleanup_hook: "c_hook (hitl_cleanup c) = c_hook c"
  by (simp add: hitl_cleanup_def split: option.splits)

lemma tick_begin_cancelled: "c_cancelled (tick_begin k st c) = c_cancelled c"
  by (simp add: tick_begin_def on_hook_cancelled split: option.splits)

lemma hitl_effect_cancelled: "c_cancelled (hitl_effect st c) = c_cancelled c"
  by (simp add: hitl_effect_def on_hook_cancelled tick_begin_cancelled)

text \<open>A \<open>cancelled\<close> variable is never set back to false.\<close>

lemma step_cancelled_mono: "k \<in> c_cancelled c \<Longrightarrow> k \<in> c_cancelled (step c op)"
  by (cases op)
     (auto simp: set_threadId_def thread_changed_def set_enableHITL_def set_accessToken_def
        tick_settle_def on_hook_cancelled tick_begin_cancelled hitl_effect_cancelled
        intro!: cleanup_cancelled split: option.splits)

lemma run_cancelled_mono: "k \<in> c_cancelled c \<Longrightarrow> k \<in> c_cancelled (run ops c)"
  unfolding run_def by (induction ops arbitrary: c) (simp_all add: step_cancelled_mono)

lemma teardown_cancels:
  "c_active c = Some k \<Longrightarrow> tears_down c op \<Longrightarrow> k \<in> c_cancelled (step c op)"
  by (cases op)
     (auto simp: set_threadId_def thread_changed_def set_enableHITL_def set_accessToken_def
        on_hook_cancelled hitl_effect_cancelled intro!: cleanup_cancels)

lemma settle_cancelled: "k \<in> c_cancelled c \<Longrightarrow> settle_effects k q c = []"
  by (simp add: settle_effects_def fallback_cancelled)

text \<open>
  C7. Let closure \<open>k\<close> be the running one, so that a tick of it may have a query in
  flight, and let the conversation change, another dependency of the detector effect
  change, or the component unmount. Whatever happens afterwards, when the query of closure
  \<open>k\<close> settles, with any outcome, the tick has no effect at all: nothing is published
  and the marker is not written.
\<close>

theorem stale_tick_discarded:
  assumes "c_active c = Some k" and "tears_down c op"
  shows "settle_effects k q (run ops (step c op)) = []
       \<and> step (run ops (step c op)) (Settle k q) = run ops (step c op)"
proof -
  have "k \<in> c_cancelled (run ops (step c op))"
    by (rule run_cancelled_mono [OF teardown_cancels [OF assms]])
  then have "settle_effects k q (run ops (step c op)) = []"
    by (rule settle_cancelled)
  then show ?thesis
    by (simp add: tick_settle_def on_hook_Nil)
qed

text \<open>In the witness the query of conversation \<open>A\<close> would publish \<open>i1\<close> if it settled
  before the switch to \<open>B\<close>; settling after the switch and one tick of \<open>B\<close>, it does
  nothing.\<close>

theorem stale_tick_discarded_witness:
  "c_active watching_A = Some 0
   \<and> tears_down watching_A (SetThreadId (Some ''B'') no_live)
   \<and> publishes (settle_effects 0 paused_with_values watching_A) = [rec_i1]
   \<and> settle_effects 0 paused_with_values
        (run [Tick no_live] (step watching_A (SetThreadId (Some ''B'') no_live))) = []"
proof -
  have a: "c_active watching_A = Some 0" by (simp add: watching_A_def)
  have t: "tears_down watching_A (SetThreadId (Some ''B'') no_live)"
    by (simp add: watching_A_def)
  have p: "publishes (settle_effects 0 paused_with_values watching_A) = [rec_i1]"
    by (simp add: watching_A_def rec_i1_def intr_i1_def pay_analyze_def ar_analyze_def
        paused_with_values_def hook_defs settle_effects_def publishes_def)
  show ?thesis
    using stale_tick_discarded [OF a t, of paused_with_values "[Tick no_live]"] a t p
    by simp
qed

lemma exec_thread_effect: "exec thread_effect h = initial_hook"
  by (simp add: thread_effect_def initial_hook_def exec_Cons exec_Nil)

lemma thread_changed_hook: "c_hook (thread_changed t c) = initial_hook"
  by (simp add: thread_changed_def on_hook_def exec_thread_effect)

lemma thread_changed_indep: "thread_changed t (c\<lparr>c_hook := h\<rparr>) = thread_changed t c"
  by (simp add: thread_changed_def on_hook_def exec_thread_effect hitl_cleanup_def
      split: option.splits)

lemma tick_begin_ledger:
  "handledInterruptIds (c_hook (tick_begin k st c)) = handledInterruptIds (c_hook c)"
  by (simp add: tick_begin_def on_hook_def live_ledger split: option.splits)

lemma hitl_effect_ledger:
  "handledInterruptIds (c_hook (hitl_effect st c)) = handledInterruptIds (c_hook c)"
  by (simp add: hitl_effect_def on_hook_def tick_begin_ledger exec_Cons exec_Nil)

text \<open>
  C8. When the conversation identifier changes, to any value or to none, the detector
  effect of the new conversation, whose first statement that reads the state is the
  immediate tick, starts from the initial state: empty ledger, nothing displayed, null
  marker. What the component is after the change does not depend on the state the old
  conversation left, and the ledger is still empty after the immediate tick.
\<close>

theorem thread_change_resets:
  assumes "t \<noteq> c_threadId c"
  shows "c_hook (thread_changed t c) = initial_hook
       \<and> set_threadId t st c = hitl_effect st (thread_changed t c)
       \<and> set_threadId t st (c\<lparr>c_hook := h\<rparr>) = set_threadId t st c
       \<and> handledInterruptIds (c_hook (set_threadId t st c)) = {}"
  using assms
  by (simp add: set_threadId_def thread_changed_hook thread_changed_indep hitl_effect_ledger
      initial_hook_def)

text \<open>In the witness conversation \<open>A\<close> has \<open>i1\<close> in its ledger and shows a record;
  conversation \<open>B\<close> starts with a pause that has the same identifier \<open>i1\<close>, and its
  first tick displays it.\<close>

theorem thread_change_resets_witness:
  "Some ''B'' \<noteq> c_threadId busy_A
   \<and> handledInterruptIds (c_hook busy_A) = {''i1''}
   \<and> c_hook (thread_changed (Some ''B'') busy_A) = initial_hook
   \<and> set_threadId (Some ''B'') (live intr_i1) (busy_A\<lparr>c_hook := initial_hook\<rparr>)
       = set_threadId (Some ''B'') (live intr_i1) busy_A
   \<and> displayed (set_threadId (Some ''B'') (live intr_i1) busy_A)
       = Some (rec_i1\<lparr>threadId := ''B''\<rparr>)
   \<and> displayed (set_threadId None (live intr_i1) busy_A) = None"
proof -
  have a: "Some ''B'' \<noteq> c_threadId busy_A" by (simp add: busy_A_def)
  have l: "handledInterruptIds (c_hook busy_A) = {''i1''}"
    by (simp add: busy_A_def shows_noid_after_i1_def)
  have d: "displayed (set_threadId (Some ''B'') (live intr_i1) busy_A)
       = Some (rec_i1\<lparr>threadId := ''B''\<rparr>)"
    by (simp add: busy_A_def shows_noid_after_i1_def rec_i1_def rec_noid_def intr_i1_def
        pay_analyze_def ar_analyze_def live_def hook_defs displayed_def set_threadId_def
        thread_changed_def thread_effect_def hitl_cleanup_def hitl_effect_def tick_begin_def
        on_hook_def)
  have e: "displayed (set_threadId None (live intr_i1) busy_A) = None"
    by (simp add: busy_A_def shows_noid_after_i1_def hook_defs displayed_def set_threadId_def
        thread_changed_def thread_effect_def hitl_cleanup_def hitl_effect_def on_hook_def)
  show ?thesis
    using thread_change_resets [OF a, of "live intr_i1" initial_hook] a l d e by simp
qed

lemma in_sync_clear_if_marked: "in_sync h \<Longrightarrow> in_sync (exec (clear_if_marked b h) h)"
  by (cases "\<not> b \<and> lastInterruptId h \<noteq> None")
     (simp_all add: clear_if_marked_def exec_Cons exec_Nil in_sync_def split: option.splits)

lemma in_sync_publish:
  "in_sync h \<Longrightarrow> interruptId r = i \<Longrightarrow> in_sync (exec (publish b i r) h)"
  by (cases b) (simp_all add: publish_def exec_Cons exec_Nil in_sync_def split: option.splits)

lemma in_sync_live: "in_sync h \<Longrightarrow> in_sync (exec (live_branch tid b st intr h) h)"
  by (simp add: live_branch_def in_sync_clear_if_marked in_sync_publish exec_Nil)

lemma in_sync_fallback: "in_sync h \<Longrightarrow> in_sync (exec (fallback_branch tid b q h) h)"
  by (simp add: fallback_branch_def in_sync_clear_if_marked in_sync_publish exec_Nil
      split: query_outcome.splits list.splits option.splits)

lemma in_sync_resumeRun: "in_sync h \<Longrightarrow> in_sync (exec (resumeRun_effects a d e thr h) h)"
  by (cases d)
     (auto simp: resumeRun_effects_def resumeValue_def mark_handled_def rollback_def exec_Cons
        exec_Nil exec_append in_sync_def or_null_def truthy_def split: option.splits)

lemma in_sync_thread_effect: "in_sync (exec thread_effect h)"
  by (simp add: thread_effect_def exec_Cons exec_Nil in_sync_def)

lemma in_sync_inert: "in_sync (exec [SetInterruptState None, SetLastInterruptId None] h)"
  by (simp add: exec_Cons exec_Nil in_sync_def)

lemma in_sync_tick_begin: "in_sync (c_hook c) \<Longrightarrow> in_sync (c_hook (tick_begin k st c))"
  by (simp add: tick_begin_def on_hook_def in_sync_live split: option.splits)

lemma in_sync_hitl_effect: "in_sync (c_hook c) \<Longrightarrow> in_sync (c_hook (hitl_effect st c))"
  by (simp add: hitl_effect_def on_hook_def in_sync_inert in_sync_tick_begin)

lemma in_sync_settle: "in_sync (c_hook c) \<Longrightarrow> in_sync (c_hook (tick_settle k q c))"
  by (simp add: tick_settle_def settle_effects_def on_hook_def in_sync_fallback exec_Nil)

lemma step_in_sync:
  assumes "in_sync (c_hook c)"
  shows "in_sync (c_hook (step c op))"
proof (cases op)
  case (SetThreadId t st)
  then show ?thesis
    by (simp add: set_threadId_def thread_changed_def in_sync_hitl_effect on_hook_def
        in_sync_thread_effect assms)
next
  case (SetEnableHITL b st)
  then show ?thesis
    by (simp add: set_enableHITL_def in_sync_hitl_effect cleanup_hook assms)
next
  case (SetAccessToken a st)
  then show ?thesis
    by (simp add: set_accessToken_def in_sync_hitl_effect cleanup_hook assms)
next
  case Unmount
  then show ?thesis by (simp add: cleanup_hook assms)
next
  case (Tick st)
  then show ?thesis by (simp add: in_sync_tick_begin assms split: option.splits)
next
  case (Settle k q)
  then show ?thesis by (simp add: in_sync_settle assms)
next
  case (ResumeRun d e thr)
  then show ?thesis by (simp add: on_hook_def in_sync_resumeRun assms)
qed

lemma run_in_sync: "in_sync (c_hook c) \<Longrightarrow> in_sync (c_hook (run ops c))"
  unfolding run_def by (induction ops arbitrary: c) (simp_all add: step_in_sync)

lemma in_sync_initial: "in_sync (c_hook initial_component)"
  by (simp add: initial_component_def initial_hook_def in_sync_def)

lemma in_sync_plain:
  "in_sync h \<Longrightarrow> interruptState h = Some r \<Longrightarrow> interruptId r \<noteq> Some [] \<Longrightarrow>
   lastInterruptId h = interruptId r"
  by (cases "interruptId r") (simp_all add: in_sync_def or_null_def truthy_def)

text \<open>
  C9. The marker and the displayed record agree initially, and every operation keeps
  them so: the renders that change the conversation, the feature switch or the access
  token, the unmount, a tick of the interval, the settling of a query, and
  \<open>resumeRun\<close> with or without a throw. Agreement is \<open>in_sync\<close>: the marker is null
  when nothing is displayed, and otherwise it is the record's identifier, or null when
  the record has none. The hook takes the empty string for no identifier
  (\<open>interruptId || null\<close>); for every other record the marker equals the identifier
  field itself.
\<close>

theorem marker_in_sync_kept:
  assumes "in_sync (c_hook c)"
  shows "in_sync (c_hook initial_component)
       \<and> in_sync (c_hook (step c op))
       \<and> in_sync (c_hook (run ops c))
       \<and> (interruptState (c_hook (step c op)) = None
            \<longrightarrow> lastInterruptId (c_hook (step c op)) = None)
       \<and> (\<forall>r. interruptState (c_hook (step c op)) = Some r \<and> interruptId r \<noteq> Some []
            \<longrightarrow> lastInterruptId (c_hook (step c op)) = interruptId r)"
proof -
  have s: "in_sync (c_hook (step c op))" by (rule step_in_sync [OF assms])
  have n: "interruptState (c_hook (step c op)) = None
            \<Longrightarrow> lastInterruptId (c_hook (step c op)) = None"
    using s by (simp add: in_sync_def)
  show ?thesis
    using s n in_sync_initial run_in_sync [OF assms] in_sync_plain [OF s] by blast
qed

theorem marker_in_sync_kept_witness:
  "in_sync (c_hook (watching_A\<lparr>c_hook := shows_i1\<rparr>))
   \<and> in_sync (c_hook (step (watching_A\<lparr>c_hook := shows_i1\<rparr>) (ResumeRun reject None True)))
   \<and> interruptState (c_hook (step (watching_A\<lparr>c_hook := shows_i1\<rparr>) (ResumeRun reject None True)))
       = Some rec_i1
   \<and> lastInterruptId (c_hook (step (watching_A\<lparr>c_hook := shows_i1\<rparr>) (ResumeRun reject None True)))
       = Some ''i1''
   \<and> interruptState (c_hook (step (watching_A\<lparr>c_hook := shows_i1\<rparr>) (ResumeRun approve None False)))
       = None
   \<and> lastInterruptId (c_hook (step (watching_A\<lparr>c_hook := shows_i1\<rparr>) (ResumeRun approve None False)))
       = None"
proof -
  have a: "in_sync (c_hook (watching_A\<lparr>c_hook := shows_i1\<rparr>))"
    by (simp add: shows_i1_def rec_i1_def in_sync_def or_null_def truthy_def)
  have r: "interruptState (c_hook (step (watching_A\<lparr>c_hook := shows_i1\<rparr>) (ResumeRun reject None True)))
       = Some rec_i1"
    by (simp add: watching_A_def shows_i1_def rec_i1_def pay_analyze_def ar_analyze_def
        hook_defs on_hook_def)
  have i: "interruptId rec_i1 = Some ''i1''" by (simp add: rec_i1_def)
  have n: "interruptState (c_hook (step (watching_A\<lparr>c_hook := shows_i1\<rparr>) (ResumeRun approve None False)))
       = None"
    by (simp add: watching_A_def shows_i1_def rec_i1_def pay_analyze_def ar_analyze_def
        hook_defs on_hook_def)
  note w1 = marker_in_sync_kept [OF a, of "ResumeRun reject None True" "[]"]
  note w2 = marker_in_sync_kept [OF a, of "ResumeRun approve None False" "[]"]
  show ?thesis
    using w1 w2 a r i n by simp
qed

end
